theory Spec2Isabelle
  imports Main "HOL-Library.Signed_Division"
begin

section \<open>The data of the clock program\<close>

text \<open>
  The program is one file, \<^verbatim>\<open>src/lcd_clock.cpp\<close>: the keypad scanner
  \<^verbatim>\<open>col_scan\<close> / \<^verbatim>\<open>keypadScan\<close>, the helpers \<^verbatim>\<open>temp_toggle\<close>,
  \<^verbatim>\<open>getTemp\<close>, \<^verbatim>\<open>reset_entries\<close>, and the endless loop of \<^verbatim>\<open>main\<close>.
  All of its variables (globals, function statics and the locals of \<^verbatim>\<open>main\<close> that live
  across loop iterations) are fields of one record, passed through every function.
  The two-element arrays \<^verbatim>\<open>row_col\<close>, \<^verbatim>\<open>last_key\<close> and
  \<^verbatim>\<open>current_entry\<close> are pairs; everything of type \<^verbatim>\<open>int\<close> is an
  \<^typ>\<open>int\<close> (the values stay far below the 32-bit range: a parsed entry is at most
  \<open>207 * 10 + 207\<close>, the hour at most \<open>12 + 12\<close>).
\<close>

text \<open>The keypad's character table, \<^verbatim>\<open>char key_map[4][4]\<close>.\<close>

definition key_map :: "char list list" where
  "key_map = [''123A'', ''456P'', ''789M'', ''*0#D'']"

text \<open>The mode constants.\<close>

definition HOUR :: int where "HOUR = 0"
definition MIN' :: int where "MIN' = 1"
definition AM_PM :: int where "AM_PM = 2"
definition ENTER :: int where "ENTER = 3"

definition NORMAL_MODE :: int where "NORMAL_MODE = 0"
definition SET_MODE :: int where "SET_MODE = 1"
definition ERROR_MODE :: int where "ERROR_MODE = 2"

text \<open>
  \<^verbatim>\<open>const int debounce_time = 500\<close> of \<^verbatim>\<open>keypadScan\<close> (the source has no
  semicolon after the declaration; it is read as the declaration it is meant to be).
\<close>

definition debounce_time :: int where "debounce_time = 500"

subsection \<open>The library's Timer\<close>

text \<open>
  Modelled from the spec: the class \<^verbatim>\<open>Timer\<close> comes from the mbed library, which is
  not part of the source file. The spec calls it an elapsed-time timer that is started,
  read in milliseconds and reset to zero. The model follows the library's interface: a
  timer that is not running reads its accumulated time; a running one adds the time since
  it was started; \<^verbatim>\<open>start\<close> on a running timer does nothing; \<^verbatim>\<open>reset\<close> sets the
  reading to zero and leaves the timer running or stopped as it was. Time is the
  millisecond tick \<open>now\<close> of the state; the reading is not wrapped to 32 bits.
\<close>

record Timer =
  running :: bool
  start_ms :: int
  time_ms :: int

definition Timer_start :: "int \<Rightarrow> Timer \<Rightarrow> Timer" where
  "Timer_start t tm = (if running tm then tm else tm\<lparr>running := True, start_ms := t\<rparr>)"

definition Timer_reset :: "int \<Rightarrow> Timer \<Rightarrow> Timer" where
  "Timer_reset t tm = tm\<lparr>start_ms := t, time_ms := 0\<rparr>"

definition Timer_read_ms :: "int \<Rightarrow> Timer \<Rightarrow> int" where
  "Timer_read_ms t tm = time_ms tm + (if running tm then t - start_ms tm else 0)"

subsection \<open>The clock, the inputs of one loop iteration, the state\<close>

text \<open>
  The fields of \<^verbatim>\<open>struct tm\<close> the program reads and writes. The date fields, and
  the conversions \<^verbatim>\<open>localtime\<close> / \<^verbatim>\<open>mktime\<close> between a \<^verbatim>\<open>time_t\<close> and the
  structure, are not modelled: a call of \<^verbatim>\<open>set_time\<close> is recorded with the structure
  it was computed from, and what \<^verbatim>\<open>localtime(time(NULL))\<close> returns is an input.
\<close>

record tm =
  tm_hour :: int
  tm_min :: int
  tm_sec :: int

text \<open>
  What the hardware gives to one iteration of the loop of \<^verbatim>\<open>main\<close>:
  \<^item> \<open>cols_read\<close>: the level \<^verbatim>\<open>cols[j].read()\<close> returns, given the levels written to
    the four row lines (a pressed key at row \<open>i\<close>, column \<open>j\<close> pulls column \<open>j\<close> to 0
    while row \<open>i\<close> is 0);
  \<^item> \<open>extra_ms\<close>: the time the iteration takes beyond the scanner's sleeps (it passes
    before the scan);
  \<^item> \<open>button_falls\<close>: the falling edges of the button since the last iteration;
  \<^item> \<open>temp_c\<close>, \<open>temp_f\<close>: what the two floating-point expressions of
    \<^verbatim>\<open>getTemp\<close> evaluate to (the arithmetic on the sensor's reading is not modelled);
  \<^item> \<open>clock_now\<close>: what \<^verbatim>\<open>localtime(time(NULL))\<close> returns.
\<close>

record inputs =
  cols_read :: "int list \<Rightarrow> nat \<Rightarrow> int"
  extra_ms :: nat
  button_falls :: nat
  temp_c :: int
  temp_f :: int
  clock_now :: tm

record state =
  now :: int
  rows :: "int list"
  row_col :: "int \<times> int"
  last_key :: "int \<times> int"
  debounceTimer :: Timer
  toggle :: bool
  index :: int
  current_entry :: "char \<times> char"
  hr :: int
  min' :: int
  timer :: Timer
  mode :: int
  entry_mode :: int
  update_LCD :: bool
  lcd :: string
  set_time_calls :: "tm list"

text \<open>\<^verbatim>\<open>ThisThread::sleep_for\<close>: the tick advances (by exactly the time asked for).\<close>

definition sleep_for :: "int \<Rightarrow> state \<Rightarrow> state" where
  "sleep_for d s = s\<lparr>now := now s + d\<rparr>"

section \<open>The keypad scanner\<close>

text \<open>\<^verbatim>\<open>col_scan\<close>: the first column that reads 0, or -1.\<close>

fun col_scan_loop :: "(nat \<Rightarrow> int) \<Rightarrow> nat list \<Rightarrow> int" where
  "col_scan_loop rd [] = - 1"
| "col_scan_loop rd (i # js) = (if rd i = 0 then int i else col_scan_loop rd js)"

definition col_scan :: "(nat \<Rightarrow> int) \<Rightarrow> int" where
  "col_scan rd = col_scan_loop rd [0, 1, 2, 3]"

text \<open>
  The \<^verbatim>\<open>for\<close> loop of \<^verbatim>\<open>keypadScan\<close> over the rows still to scan; the result's
  first component is \<^verbatim>\<open>noKeyPressed\<close>. The \<^verbatim>\<open>break\<close> is the branch that does not
  recurse.
\<close>

fun row_loop :: "inputs \<Rightarrow> nat list \<Rightarrow> state \<Rightarrow> bool \<times> state" where
  "row_loop inp [] s = (True, s)"
| "row_loop inp (i # js) s =
    (let s1 = sleep_for 4 (s\<lparr>rows := (rows s)[i := 0]\<rparr>);
         s2 = s1\<lparr>row_col := (fst (row_col s1), col_scan (cols_read inp (rows s1)))\<rparr>;
         s3 = sleep_for 4 s2;
         s4 = s3\<lparr>rows := (rows s3)[i := 1]\<rparr>
     in if snd (row_col s4) > - 1
        then (False, s4\<lparr>row_col := (int i, snd (row_col s4)),
                         debounceTimer := Timer_start (now s4) (debounceTimer s4)\<rparr>)
        else row_loop inp js s4)"

text \<open>
  \<^verbatim>\<open>keypadScan\<close>. The indices of the table lookup are the row and column just
  matched, both in 0..3 (lemma \<open>row_loop_match\<close> below), so the lookup is in range.
\<close>

definition keypadScan :: "inputs \<Rightarrow> state \<Rightarrow> char \<times> state" where
  "keypadScan inp s =
    (let (noKeyPressed, s1) = row_loop inp [0, 1, 2, 3] s in
     if noKeyPressed then (CHR ''x'', s1\<lparr>last_key := (- 1, - 1)\<rparr>)
     else if (fst (last_key s1) = fst (row_col s1) \<and> snd (last_key s1) = snd (row_col s1))
             \<or> Timer_read_ms (now s1) (debounceTimer s1) < debounce_time
     then (CHR ''x'', s1)
     else (key_map ! nat (fst (row_col s1)) ! nat (snd (row_col s1)),
           s1\<lparr>last_key := (fst (row_col s1), snd (row_col s1)),
              debounceTimer := Timer_reset (now s1) (debounceTimer s1)\<rparr>))"

section \<open>The helpers\<close>

definition temp_toggle :: "state \<Rightarrow> state" where
  "temp_toggle s = s\<lparr>toggle := (if toggle s = False then True else False)\<rparr>"

definition getTemp :: "bool \<Rightarrow> inputs \<Rightarrow> int" where
  "getTemp tg inp = (if \<not> tg then temp_c inp else temp_f inp)"

definition reset_entries :: "state \<Rightarrow> state" where
  "reset_entries s = s\<lparr>current_entry := (CHR ''_'', CHR ''_'')\<rparr>"

section \<open>The loop of main\<close>

text \<open>
  The expression \<^verbatim>\<open>(current_entry[0] - '0')*10 + (current_entry[1] - '0')\<close>, which
  the Hour and the Minute branch both evaluate.
\<close>

definition entry_value :: "char \<times> char \<Rightarrow> int" where
  "entry_value ce = (of_char (fst ce) - of_char CHR ''0'') * 10 + (of_char (snd ce) - of_char CHR ''0'')"

text \<open>
  \<^verbatim>\<open>current_entry[index] = key_map_val\<close>. The index is 0 or 1 at every reachable
  state (lemma \<open>run_inv\<close> below); a write at another index is outside the array in the
  source and changes nothing here.
\<close>

definition store_entry :: "int \<Rightarrow> char \<Rightarrow> char \<times> char \<Rightarrow> char \<times> char" where
  "store_entry i c ce = (if i = 0 then (c, snd ce) else if i = 1 then (fst ce, c) else ce)"

text \<open>The branch of the \<^verbatim>\<open>'#'\<close> key, up to the statements that follow every field.\<close>

definition enter_field :: "state \<Rightarrow> state" where
  "enter_field s =
    (if entry_mode s = HOUR then
       (let s1 = s\<lparr>hr := entry_value (current_entry s)\<rparr> in
        if hr s1 < 1 \<or> hr s1 > 12
        then s1\<lparr>timer := Timer_reset (now s1) (timer s1), mode := ERROR_MODE\<rparr>
        else s1\<lparr>entry_mode := entry_mode s1 + 1\<rparr>)
     else if entry_mode s = MIN' then
       (let s1 = s\<lparr>min' := entry_value (current_entry s)\<rparr> in
        if min' s1 > 59
        then s1\<lparr>timer := Timer_reset (now s1) (timer s1), mode := ERROR_MODE\<rparr>
        else s1\<lparr>entry_mode := entry_mode s1 + 1\<rparr>)
     else if entry_mode s = AM_PM then
       (if (fst (current_entry s) \<noteq> CHR ''A'' \<and> fst (current_entry s) \<noteq> CHR ''P'')
           \<or> snd (current_entry s) \<noteq> CHR ''M''
        then s\<lparr>timer := Timer_reset (now s) (timer s), mode := ERROR_MODE\<rparr>
        else
          (let s1 = (if fst (current_entry s) = CHR ''P'' \<and> hr s \<noteq> 12
                     then s\<lparr>hr := hr s + 12\<rparr> else s)
           in s1\<lparr>entry_mode := entry_mode s1 + 1\<rparr>))
     else s)"

text \<open>The key press section: \<^verbatim>\<open>if(key_map_val != 'x' && mode != ERROR_MODE) ...\<close>.\<close>

definition key_press :: "char \<Rightarrow> state \<Rightarrow> state" where
  "key_press key_map_val s =
    (if key_map_val \<noteq> CHR ''x'' \<and> mode s \<noteq> ERROR_MODE then
       if key_map_val = CHR ''*'' then
         reset_entries (s\<lparr>mode := SET_MODE, entry_mode := HOUR, update_LCD := True, index := 0\<rparr>)
       else if key_map_val = CHR ''D'' then
         reset_entries (s\<lparr>mode := NORMAL_MODE, entry_mode := HOUR\<rparr>)
       else if mode s = SET_MODE then
         if key_map_val \<noteq> CHR ''#'' then
           s\<lparr>current_entry := store_entry (index s) key_map_val (current_entry s),
             index := (if index s = 0 then 1 else 0),
             update_LCD := True\<rparr>
         else reset_entries ((enter_field s)\<lparr>update_LCD := True\<rparr>)
       else s
     else s)"

text \<open>
  The time update section: the fields of \<^verbatim>\<open>timeinfo\<close> are overwritten and the
  structure goes through \<^verbatim>\<open>mktime\<close> to \<^verbatim>\<open>set_time\<close>.
\<close>

definition time_update :: "state \<Rightarrow> state" where
  "time_update s =
    (if entry_mode s = ENTER then
       reset_entries
         (s\<lparr>set_time_calls := set_time_calls s @ [\<lparr>tm_hour = hr s, tm_min = min' s, tm_sec = 0\<rparr>],
            mode := NORMAL_MODE, entry_mode := HOUR\<rparr>)
     else s)"

subsection \<open>What printf writes\<close>

fun dec_digits :: "nat \<Rightarrow> string" where
  "dec_digits n =
    (if n < 10 then [''0123456789'' ! n]
     else dec_digits (n div 10) @ [''0123456789'' ! (n mod 10)])"

declare dec_digits.simps [simp del]

text \<open>The conversion \<^verbatim>\<open>%02d\<close>: at least two characters, filled with zeros.\<close>

definition fmt_02d :: "int \<Rightarrow> string" where
  "fmt_02d v =
    (if v < 0 then CHR ''-'' # dec_digits (nat (- v))
     else if v < 10 then CHR ''0'' # dec_digits (nat v)
     else dec_digits (nat v))"

text \<open>
  The two expressions of the clock line that depend on the hour:
  \<^verbatim>\<open>(tm_hour % 12 == 0) ? 12 : tm_hour % 12\<close> and \<^verbatim>\<open>(tm_hour > 12) ? "PM" : "AM"\<close>.
  The remainder of C++ truncates towards zero: \<open>smod\<close>.
\<close>

definition display_hour :: "int \<Rightarrow> int" where
  "display_hour h = (if h smod 12 = 0 then 12 else h smod 12)"

definition am_pm :: "int \<Rightarrow> string" where
  "am_pm h = (if h > 12 then ''PM'' else ''AM'')"

definition C_F :: "bool \<Rightarrow> char" where
  "C_F tg = (if tg then CHR ''F'' else CHR ''C'')"

text \<open>\<^verbatim>\<open>printf("%02d:%02d:%02d %s %02d %c", ...)\<close>.\<close>

definition clock_line :: "tm \<Rightarrow> int \<Rightarrow> char \<Rightarrow> string" where
  "clock_line t temp unit =
     fmt_02d (display_hour (tm_hour t)) @ '':'' @ fmt_02d (tm_min t) @ '':'' @ fmt_02d (tm_sec t)
     @ '' '' @ am_pm (tm_hour t) @ '' '' @ fmt_02d temp @ '' '' @ [unit]"

text \<open>
  The screen update section. The field \<open>lcd\<close> holds what was written since the last
  \<^verbatim>\<open>lcd.cls()\<close>. In the second branch no \<^verbatim>\<open>printf\<close> runs when the entry mode is
  none of the three fields: the display stays cleared.
\<close>

definition screen_update :: "inputs \<Rightarrow> state \<Rightarrow> state" where
  "screen_update inp s =
    (if mode s = NORMAL_MODE \<and> Timer_read_ms (now s) (timer s) \<ge> 1000 then
       (let temp = getTemp (toggle s) inp in
        s\<lparr>lcd := clock_line (clock_now inp) temp (C_F (toggle s)),
          timer := Timer_reset (now s) (timer s)\<rparr>)
     else if mode s \<ge> SET_MODE \<and> update_LCD s = True then
       s\<lparr>lcd :=
           (if mode s = ERROR_MODE then ''---- ERROR! ----''
            else if entry_mode s = HOUR then
              ''HOUR:  '' @ [fst (current_entry s), snd (current_entry s)]
            else if entry_mode s = MIN' then
              ''MIN:  '' @ [fst (current_entry s), snd (current_entry s)]
            else if entry_mode s = AM_PM then
              ''AM or PM:  '' @ [fst (current_entry s), snd (current_entry s)]
            else ''''),
         update_LCD := False\<rparr>
     else if mode s = ERROR_MODE \<and> Timer_read_ms (now s) (timer s) \<ge> 2000 then
       s\<lparr>timer := Timer_reset (now s) (timer s), mode := mode s - 1, index := 0,
         update_LCD := True\<rparr>
     else s)"

subsection \<open>One iteration, and a run\<close>

text \<open>The body of the loop after the call of \<^verbatim>\<open>keypadScan\<close>, whose result is \<open>k\<close>.\<close>

definition main_iter :: "char \<Rightarrow> inputs \<Rightarrow> state \<Rightarrow> state" where
  "main_iter k inp s = screen_update inp (time_update (key_press k s))"

text \<open>
  One iteration of \<^verbatim>\<open>while (1)\<close>, in two parts: up to the return of
  \<^verbatim>\<open>keypadScan\<close>, and the rest. The button's interrupts since the last iteration
  run first, then the time the iteration takes beyond the scanner's sleeps passes.
\<close>

definition scan_phase :: "inputs \<Rightarrow> state \<Rightarrow> char \<times> state" where
  "scan_phase inp s =
     keypadScan inp (sleep_for (int (extra_ms inp)) ((temp_toggle ^^ button_falls inp) s))"

definition loop_body :: "inputs \<Rightarrow> state \<Rightarrow> state" where
  "loop_body inp s = (let (key_map_val, s1) = scan_phase inp s in main_iter key_map_val inp s1)"

text \<open>The state when the loop is entered: the set up section of \<^verbatim>\<open>main\<close>.\<close>

definition init_state :: state where
  "init_state =
    \<lparr>now = 0, rows = [1, 1, 1, 1], row_col = (- 1, - 1), last_key = (- 1, - 1),
     debounceTimer = \<lparr>running = False, start_ms = 0, time_ms = 0\<rparr>,
     toggle = False, index = 0, current_entry = (CHR ''_'', CHR ''_''),
     hr = 0, min' = 0,
     timer = \<lparr>running = True, start_ms = 0, time_ms = 0\<rparr>,
     mode = NORMAL_MODE, entry_mode = HOUR, update_LCD = False, lcd = '''',
     set_time_calls = []\<rparr>"

text \<open>The loop run on a list of inputs, one per iteration.\<close>

fun run :: "inputs list \<Rightarrow> state \<Rightarrow> state" where
  "run [] s = s"
| "run (inp # inps) s = run inps (loop_body inp s)"

text \<open>The same with the scanner's results given: the key events of a run.\<close>

fun run_keys :: "(char \<times> inputs) list \<Rightarrow> state \<Rightarrow> state" where
  "run_keys [] s = s"
| "run_keys ((k, inp) # rest) s = run_keys rest (main_iter k inp s)"

section \<open>Predicates of the statements below\<close>

text \<open>The characters of the keypad, and those a slot of \<^verbatim>\<open>current_entry\<close> can hold.\<close>

definition keypad_chars :: "char set" where
  "keypad_chars = set (concat key_map)"

definition entry_chars :: "char set" where
  "entry_chars = set ''0123456789APM_''"

text \<open>
  The variables of the key press, time update and screen update sections that the
  statements below are about; the scanner touches none of them.
\<close>

definition main_vars ::
  "state \<Rightarrow> int \<times> (char \<times> char) \<times> int \<times> int \<times> int \<times> int \<times> bool \<times> string \<times> tm list \<times> Timer" where
  "main_vars s =
     (index s, current_entry s, hr s, min' s, mode s, entry_mode s, update_LCD s, lcd s,
      set_time_calls s, timer s)"

text \<open>
  The three conditions under which the \<^verbatim>\<open>'#'\<close> branch resets the timer and sets
  \<^verbatim>\<open>mode = ERROR_MODE\<close>, as the source writes them.
\<close>

definition rejected :: "state \<Rightarrow> bool" where
  "rejected s =
     (entry_mode s = HOUR \<and> (entry_value (current_entry s) < 1 \<or> entry_value (current_entry s) > 12)
      \<or> entry_mode s = MIN' \<and> entry_value (current_entry s) > 59
      \<or> entry_mode s = AM_PM \<and>
          ((fst (current_entry s) \<noteq> CHR ''A'' \<and> fst (current_entry s) \<noteq> CHR ''P'')
           \<or> snd (current_entry s) \<noteq> CHR ''M''))"

text \<open>A time of day with the seconds at zero, the hour in 1..23 and the minute in 0..59.\<close>

definition valid_tm :: "tm \<Rightarrow> bool" where
  "valid_tm t = (1 \<le> tm_hour t \<and> tm_hour t \<le> 23 \<and> 0 \<le> tm_min t \<and> tm_min t \<le> 59 \<and> tm_sec t = 0)"

text \<open>
  The invariant of the loop, which holds whenever the loop's body is entered, and what
  holds between the key press section and the time update section.
\<close>

definition loop_inv :: "state \<Rightarrow> bool" where
  "loop_inv s =
     (NORMAL_MODE \<le> mode s \<and> mode s \<le> ERROR_MODE
      \<and> HOUR \<le> entry_mode s \<and> entry_mode s \<le> AM_PM
      \<and> 0 \<le> index s \<and> index s \<le> 1
      \<and> fst (current_entry s) \<in> entry_chars \<and> snd (current_entry s) \<in> entry_chars
      \<and> running (timer s)
      \<and> (mode s = ERROR_MODE \<longrightarrow> \<not> update_LCD s \<and> current_entry s = (CHR ''_'', CHR ''_''))
      \<and> (MIN' \<le> entry_mode s \<longrightarrow> 1 \<le> hr s \<and> hr s \<le> 12)
      \<and> (AM_PM \<le> entry_mode s \<longrightarrow> 0 \<le> min' s \<and> min' s \<le> 59)
      \<and> list_all valid_tm (set_time_calls s))"

definition mid_inv :: "state \<Rightarrow> bool" where
  "mid_inv s =
     (NORMAL_MODE \<le> mode s \<and> mode s \<le> ERROR_MODE
      \<and> HOUR \<le> entry_mode s \<and> entry_mode s \<le> ENTER
      \<and> 0 \<le> index s \<and> index s \<le> 1
      \<and> fst (current_entry s) \<in> entry_chars \<and> snd (current_entry s) \<in> entry_chars
      \<and> running (timer s)
      \<and> (mode s = ERROR_MODE \<longrightarrow> current_entry s = (CHR ''_'', CHR ''_'') \<and> entry_mode s \<noteq> ENTER)
      \<and> (MIN' \<le> entry_mode s \<and> entry_mode s \<le> AM_PM \<longrightarrow> 1 \<le> hr s \<and> hr s \<le> 12)
      \<and> (AM_PM \<le> entry_mode s \<longrightarrow> 0 \<le> min' s \<and> min' s \<le> 59)
      \<and> (entry_mode s = ENTER \<longrightarrow> 1 \<le> hr s \<and> hr s \<le> 23)
      \<and> list_all valid_tm (set_time_calls s))"

section \<open>Concrete inputs\<close>

text \<open>
  The keypad with the one key at row \<open>r\<close>, column \<open>c\<close> held down, and with no key
  down; a clock reading; an iteration that takes 600 ms before its scan, with that key
  down or none.
\<close>

definition key_at :: "nat \<Rightarrow> nat \<Rightarrow> int list \<Rightarrow> nat \<Rightarrow> int" where
  "key_at r c lv j = (if lv ! r = 0 \<and> j = c then 0 else 1)"

definition no_key :: "int list \<Rightarrow> nat \<Rightarrow> int" where
  "no_key lv j = 1"

definition noon :: tm where
  "noon = \<lparr>tm_hour = 12, tm_min = 30, tm_sec = 0\<rparr>"

definition press :: "nat \<Rightarrow> nat \<Rightarrow> inputs" where
  "press r c =
     \<lparr>cols_read = key_at r c, extra_ms = 600, button_falls = 0, temp_c = 25, temp_f = 77,
      clock_now = noon\<rparr>"

definition idle :: inputs where
  "idle =
     \<lparr>cols_read = no_key, extra_ms = 600, button_falls = 0, temp_c = 25, temp_f = 77,
      clock_now = noon\<rparr>"

text \<open>
  Runs: \<open>held\<close> gives one iteration per coordinate, with the key at the coordinate down
  (the first scan of the program swallows its key, so the first key is held for two);
  \<open>typed\<close> gives one iteration per key event, for \<open>run_keys\<close>.
\<close>

definition held :: "(nat \<times> nat) list \<Rightarrow> inputs list" where
  "held cs = map (\<lambda>(r, c). press r c) cs"

definition typed :: "string \<Rightarrow> (char \<times> inputs) list" where
  "typed ks = map (\<lambda>k. (k, idle)) ks"


definition after_13_enter :: state where
  "after_13_enter = run (held [(3, 0), (3, 0), (0, 0), (0, 2), (3, 2)]) init_state"

definition after_13_enter_late :: state where
  "after_13_enter_late = run [idle, idle, idle] after_13_enter"

definition after_13 :: state where
  "after_13 = run (held [(3, 0), (3, 0), (0, 0), (0, 2)]) init_state"

definition after_0130_enter :: state where
  "after_0130_enter =
     run (held [(3, 0), (3, 0), (3, 1), (0, 0), (3, 2), (0, 2), (3, 1), (3, 2)]) init_state"

definition after_0130_PM :: state where
  "after_0130_PM =
     run (held [(3, 0), (3, 0), (3, 1), (0, 0), (3, 2), (0, 2), (3, 1), (3, 2), (1, 3), (2, 3)])
       init_state"

definition after_01_2A :: state where
  "after_01_2A = run (held [(3, 0), (3, 0), (3, 1), (0, 0), (3, 2), (0, 1), (0, 3)]) init_state"


section \<open>Facts about the scanner\<close>

lemma col_scan_range: "col_scan rd \<in> {- 1, 0, 1, 2, 3}"
  by (simp add: col_scan_def)

text \<open>The row loop leaves the variables of \<^verbatim>\<open>main\<close> alone, and time does not go back.\<close>

lemma row_loop_frame:
  "row_loop inp js s = (nk, s1) \<Longrightarrow>
     main_vars s1 = main_vars s \<and> last_key s1 = last_key s \<and> now s \<le> now s1"
proof (induction js arbitrary: s)
  case Nil
  then show ?case by simp
next
  case (Cons i js)
  show ?case
  proof (cases "col_scan (cols_read inp ((rows s)[i := 0])) > - 1")
    case True
    with Cons.prems show ?thesis
      by (auto simp: Let_def sleep_for_def main_vars_def)
  next
    case False
    with Cons.prems have "row_loop inp js
        ((sleep_for 4 ((sleep_for 4 (s\<lparr>rows := (rows s)[i := 0]\<rparr>))
           \<lparr>row_col := (fst (row_col s), col_scan (cols_read inp ((rows s)[i := 0])))\<rparr>))
         \<lparr>rows := (rows s)[i := 0, i := 1]\<rparr>) = (nk, s1)"
      by (simp add: Let_def sleep_for_def)
    from Cons.IH [OF this] show ?thesis
      by (simp add: sleep_for_def main_vars_def)
  qed
qed

text \<open>When the loop ends by its \<^verbatim>\<open>break\<close>, the coordinate is a row scanned and a column in 0..3.\<close>

lemma row_loop_match:
  "row_loop inp js s = (False, s1) \<Longrightarrow>
     fst (row_col s1) \<in> set (map int js) \<and> snd (row_col s1) \<in> {0, 1, 2, 3}"
proof (induction js arbitrary: s)
  case Nil
  then show ?case by simp
next
  case (Cons i js)
  show ?case
  proof (cases "col_scan (cols_read inp ((rows s)[i := 0])) > - 1")
    case True
    with Cons.prems col_scan_range [of "cols_read inp ((rows s)[i := 0])"] show ?thesis
      by (auto simp: Let_def sleep_for_def)
  next
    case False
    with Cons.prems have "row_loop inp js
        ((sleep_for 4 ((sleep_for 4 (s\<lparr>rows := (rows s)[i := 0]\<rparr>))
           \<lparr>row_col := (fst (row_col s), col_scan (cols_read inp ((rows s)[i := 0])))\<rparr>))
         \<lparr>rows := (rows s)[i := 0, i := 1]\<rparr>) = (False, s1)"
      by (simp add: Let_def sleep_for_def)
    from Cons.IH [OF this] show ?thesis by simp
  qed
qed

lemma key_map_lookup:
  assumes "r \<in> {0, 1, 2, 3}" and "c \<in> {0, 1, 2, 3}"
  shows "key_map ! nat r ! nat c \<in> keypad_chars \<and> key_map ! nat r ! nat c \<noteq> CHR ''x''"
  using assms by (auto simp: key_map_def keypad_chars_def)

text \<open>\<^verbatim>\<open>keypadScan\<close> once the row loop has matched a key.\<close>

lemma keypadScan_matched:
  assumes "row_loop inp [0, 1, 2, 3] s = (False, s1)"
  shows "keypadScan inp s =
    (if last_key s = row_col s1 \<or> Timer_read_ms (now s1) (debounceTimer s1) < 500
     then (CHR ''x'', s1)
     else (key_map ! nat (fst (row_col s1)) ! nat (snd (row_col s1)),
           s1\<lparr>last_key := (fst (row_col s1), snd (row_col s1)),
              debounceTimer := Timer_reset (now s1) (debounceTimer s1)\<rparr>))"
proof -
  from row_loop_frame [OF assms] have lk: "last_key s1 = last_key s" by simp
  show ?thesis
    unfolding keypadScan_def assms
    by (simp add: debounce_time_def lk prod_eq_iff)
qed

lemma keypadScan_unmatched:
  assumes "row_loop inp [0, 1, 2, 3] s = (True, s1)"
  shows "keypadScan inp s = (CHR ''x'', s1\<lparr>last_key := (- 1, - 1)\<rparr>)"
  unfolding keypadScan_def assms by simp

text \<open>
  When the loop ends by its \<^verbatim>\<open>break\<close>, the debounce timer has been started and nothing
  else was done to it.
\<close>

lemma row_loop_timer:
  "row_loop inp js s = (False, s1) \<Longrightarrow>
     debounceTimer s1 = Timer_start (now s1) (debounceTimer s)"
proof (induction js arbitrary: s)
  case Nil
  then show ?case by simp
next
  case (Cons i js)
  show ?case
  proof (cases "col_scan (cols_read inp ((rows s)[i := 0])) > - 1")
    case True
    with Cons.prems show ?thesis
      by (auto simp: Let_def sleep_for_def)
  next
    case False
    with Cons.prems have "row_loop inp js
        ((sleep_for 4 ((sleep_for 4 (s\<lparr>rows := (rows s)[i := 0]\<rparr>))
           \<lparr>row_col := (fst (row_col s), col_scan (cols_read inp ((rows s)[i := 0])))\<rparr>))
         \<lparr>rows := (rows s)[i := 0, i := 1]\<rparr>) = (False, s1)"
      by (simp add: Let_def sleep_for_def)
    from Cons.IH [OF this] show ?thesis
      by (simp add: sleep_for_def)
  qed
qed

subsection \<open>The debounce rule\<close>

text \<open>
  Claim C1, as the code has it. When the row loop has matched a key, \<^verbatim>\<open>keypadScan\<close>
  returns the no-key character \<open>x\<close> if and only if the matched coordinate equals the last
  accepted one OR the debounce timer reads less than 500 ms (the source's comment: "If the
  same key is pressed again or the debounce time is not elapsed, return no key"). In the
  one remaining case (another coordinate, and at least 500 ms on the timer) it records the
  coordinate as the accepted one, resets the timer to zero and returns the character of
  the table at the coordinate, which lies inside the table. Only in that case: a scan that
  swallows its key returns the state the row loop left, with the accepted coordinate as it
  was before the scan and the timer started but not reset, so that it reads what it read
  when the key was swallowed.
\<close>

theorem keypadScan_debounce:
  assumes "row_loop inp [0, 1, 2, 3] s = (False, s1)"
  shows "(fst (keypadScan inp s) = CHR ''x'' \<longleftrightarrow>
            (last_key s = row_col s1 \<or> Timer_read_ms (now s1) (debounceTimer s1) < 500))
       \<and> (\<not> (last_key s = row_col s1 \<or> Timer_read_ms (now s1) (debounceTimer s1) < 500) \<longrightarrow>
            last_key (snd (keypadScan inp s)) = row_col s1
          \<and> Timer_read_ms (now (snd (keypadScan inp s))) (debounceTimer (snd (keypadScan inp s))) = 0
          \<and> fst (row_col s1) \<in> {0, 1, 2, 3} \<and> snd (row_col s1) \<in> {0, 1, 2, 3}
          \<and> fst (keypadScan inp s) = key_map ! nat (fst (row_col s1)) ! nat (snd (row_col s1)))
       \<and> (last_key s = row_col s1 \<or> Timer_read_ms (now s1) (debounceTimer s1) < 500 \<longrightarrow>
            snd (keypadScan inp s) = s1
          \<and> last_key (snd (keypadScan inp s)) = last_key s
          \<and> debounceTimer (snd (keypadScan inp s)) = Timer_start (now s1) (debounceTimer s)
          \<and> Timer_read_ms (now (snd (keypadScan inp s))) (debounceTimer (snd (keypadScan inp s)))
              = Timer_read_ms (now s1) (debounceTimer s1))"
proof -
  from row_loop_match [OF assms]
  have rng: "fst (row_col s1) \<in> {0, 1, 2, 3}" "snd (row_col s1) \<in> {0, 1, 2, 3}"
    by simp_all
  from key_map_lookup [OF rng]
  have nx: "key_map ! nat (fst (row_col s1)) ! nat (snd (row_col s1)) \<noteq> CHR ''x''"
    by simp
  from row_loop_frame [OF assms] have lk: "last_key s1 = last_key s"
    by simp
  note tm = row_loop_timer [OF assms]
  have acc: "(fst (keypadScan inp s) = CHR ''x'' \<longleftrightarrow>
            (last_key s = row_col s1 \<or> Timer_read_ms (now s1) (debounceTimer s1) < 500))
       \<and> (\<not> (last_key s = row_col s1 \<or> Timer_read_ms (now s1) (debounceTimer s1) < 500) \<longrightarrow>
            last_key (snd (keypadScan inp s)) = row_col s1
          \<and> Timer_read_ms (now (snd (keypadScan inp s))) (debounceTimer (snd (keypadScan inp s))) = 0
          \<and> fst (row_col s1) \<in> {0, 1, 2, 3} \<and> snd (row_col s1) \<in> {0, 1, 2, 3}
          \<and> fst (keypadScan inp s) = key_map ! nat (fst (row_col s1)) ! nat (snd (row_col s1)))"
    unfolding keypadScan_matched [OF assms] using nx rng
    by (simp add: Timer_read_ms_def Timer_reset_def)
  have sw: "snd (keypadScan inp s) = s1"
    if "last_key s = row_col s1 \<or> Timer_read_ms (now s1) (debounceTimer s1) < 500"
    unfolding keypadScan_matched [OF assms] using that by simp
  from acc sw lk tm show ?thesis
    by metis
qed

text \<open>
  The rule at work: the key at row 0, column 0 is held down from the start. The first scan
  starts the timer and swallows the key; the scan 600 ms later accepts it as \<open>1\<close>; the
  scan another 600 ms later finds the accepted coordinate again and swallows the key,
  leaving the accepted coordinate and the rest of the state as the row loop left them.
\<close>

theorem keypadScan_debounce_witness:
  "row_loop (press 0 0) [0, 1, 2, 3] (sleep_for 600 (run [press 0 0] init_state))
     = (False, snd (row_loop (press 0 0) [0, 1, 2, 3] (sleep_for 600 (run [press 0 0] init_state))))
   \<and> fst (keypadScan (press 0 0) (sleep_for 600 (run [press 0 0] init_state))) = CHR ''1''
   \<and> last_key (snd (keypadScan (press 0 0) (sleep_for 600 (run [press 0 0] init_state)))) = (0, 0)
   \<and> row_loop (press 0 0) [0, 1, 2, 3] (sleep_for 600 (run [press 0 0, press 0 0] init_state))
     = (False,
        snd (row_loop (press 0 0) [0, 1, 2, 3] (sleep_for 600 (run [press 0 0, press 0 0] init_state))))
   \<and> last_key (sleep_for 600 (run [press 0 0, press 0 0] init_state)) = (0, 0)
   \<and> fst (keypadScan (press 0 0) (sleep_for 600 (run [press 0 0, press 0 0] init_state))) = CHR ''x''
   \<and> snd (keypadScan (press 0 0) (sleep_for 600 (run [press 0 0, press 0 0] init_state)))
     = snd (row_loop (press 0 0) [0, 1, 2, 3] (sleep_for 600 (run [press 0 0, press 0 0] init_state)))
   \<and> last_key (snd (keypadScan (press 0 0) (sleep_for 600 (run [press 0 0, press 0 0] init_state))))
     = (0, 0)"
proof -
  let ?s = "sleep_for 600 (run [press 0 0] init_state)"
  let ?s1 = "snd (row_loop (press 0 0) [0, 1, 2, 3] ?s)"
  have h: "row_loop (press 0 0) [0, 1, 2, 3] ?s = (False, ?s1)"
    by code_simp
  have a: "\<not> (last_key ?s = row_col ?s1 \<or> Timer_read_ms (now ?s1) (debounceTimer ?s1) < 500)"
    by code_simp
  have r: "row_col ?s1 = (0, 0)"
    by code_simp
  have k: "key_map ! nat (fst (row_col ?s1)) ! nat (snd (row_col ?s1)) = CHR ''1''"
    by code_simp
  from keypadScan_debounce [OF h] a
  have l: "last_key (snd (keypadScan (press 0 0) ?s)) = row_col ?s1"
    and f: "fst (keypadScan (press 0 0) ?s) = key_map ! nat (fst (row_col ?s1)) ! nat (snd (row_col ?s1))"
    by blast+
  from l r have l': "last_key (snd (keypadScan (press 0 0) ?s)) = (0, 0)"
    by (rule trans)
  from f k have f': "fst (keypadScan (press 0 0) ?s) = CHR ''1''"
    by (rule trans)
  let ?t = "sleep_for 600 (run [press 0 0, press 0 0] init_state)"
  let ?t1 = "snd (row_loop (press 0 0) [0, 1, 2, 3] ?t)"
  have h2: "row_loop (press 0 0) [0, 1, 2, 3] ?t = (False, ?t1)"
    by code_simp
  have a2: "last_key ?t = row_col ?t1"
    by code_simp
  have lt: "last_key ?t = (0, 0)"
    by code_simp
  from keypadScan_debounce [OF h2] a2
  have x2: "fst (keypadScan (press 0 0) ?t) = CHR ''x''"
    and e2: "snd (keypadScan (press 0 0) ?t) = ?t1"
    and l2: "last_key (snd (keypadScan (press 0 0) ?t)) = last_key ?t"
    by blast+
  from l2 lt have l2': "last_key (snd (keypadScan (press 0 0) ?t)) = (0, 0)"
    by (rule trans)
  from h f' l' h2 lt x2 e2 l2' show ?thesis
    by blast
qed

text \<open>
  Claim C1 as the spec states it (swallowed only when the coordinate is the accepted one
  AND the timer is below 500 ms; another coordinate accepted whatever the timer reads)
  fails on the first scan of the program with the key at row 0, column 0 down: no
  coordinate has been accepted, the scan matches (0, 0), and the key is swallowed, the
  accepted coordinate left as it was.
\<close>

theorem keypadScan_swallows_new_key:
  "last_key init_state = (- 1, - 1)
   \<and> row_col (snd (keypadScan (press 0 0) init_state)) = (0, 0)
   \<and> fst (keypadScan (press 0 0) init_state) = CHR ''x''
   \<and> last_key (snd (keypadScan (press 0 0) init_state)) = (- 1, - 1)"
  by code_simp

section \<open>Facts about the loop\<close>

lemmas mode_defs = HOUR_def MIN'_def AM_PM_def ENTER_def NORMAL_MODE_def SET_MODE_def ERROR_MODE_def

lemma toggles_frame: "main_vars ((temp_toggle ^^ n) s) = main_vars s \<and> now ((temp_toggle ^^ n) s) = now s"
  by (induction n) (simp_all add: temp_toggle_def main_vars_def)

lemma keypadScan_frame:
  "main_vars (snd (keypadScan inp s)) = main_vars s \<and> now s \<le> now (snd (keypadScan inp s))"
proof (cases "row_loop inp [0, 1, 2, 3] s")
  case (Pair nk s1)
  note rl = row_loop_frame [OF Pair]
  show ?thesis
  proof (cases nk)
    case True
    with Pair have "row_loop inp [0, 1, 2, 3] s = (True, s1)" by simp
    from keypadScan_unmatched [OF this] rl show ?thesis
      by (simp add: main_vars_def)
  next
    case False
    with Pair have "row_loop inp [0, 1, 2, 3] s = (False, s1)" by simp
    from keypadScan_matched [OF this] rl show ?thesis
      by (simp add: main_vars_def)
  qed
qed

lemma keypadScan_key: "fst (keypadScan inp s) \<in> insert (CHR ''x'') keypad_chars"
proof (cases "row_loop inp [0, 1, 2, 3] s")
  case (Pair nk s1)
  show ?thesis
  proof (cases nk)
    case True
    with Pair have "row_loop inp [0, 1, 2, 3] s = (True, s1)" by simp
    from keypadScan_unmatched [OF this] show ?thesis by simp
  next
    case False
    with Pair have m: "row_loop inp [0, 1, 2, 3] s = (False, s1)" by simp
    from row_loop_match [OF m]
    have rng: "fst (row_col s1) \<in> {0, 1, 2, 3}" "snd (row_col s1) \<in> {0, 1, 2, 3}"
      by simp_all
    from key_map_lookup [OF rng] keypadScan_matched [OF m] show ?thesis by simp
  qed
qed

lemma scan_phase_frame:
  "main_vars (snd (scan_phase inp s)) = main_vars s \<and> now s \<le> now (snd (scan_phase inp s))"
proof -
  let ?s0 = "sleep_for (int (extra_ms inp)) ((temp_toggle ^^ button_falls inp) s)"
  have "main_vars ?s0 = main_vars s \<and> now s \<le> now ?s0"
    using toggles_frame [of "button_falls inp" s] by (simp add: sleep_for_def main_vars_def)
  with keypadScan_frame [of inp ?s0] show ?thesis
    by (simp add: scan_phase_def)
qed

lemma scan_phase_key: "fst (scan_phase inp s) \<in> insert (CHR ''x'') keypad_chars"
  by (simp add: scan_phase_def keypadScan_key del: insert_iff)

lemma loop_inv_main_vars: "main_vars s1 = main_vars s \<Longrightarrow> loop_inv s1 = loop_inv s"
  by (simp add: main_vars_def loop_inv_def)

lemma loop_body_scan: "loop_body inp s = main_iter (fst (scan_phase inp s)) inp (snd (scan_phase inp s))"
  by (simp add: loop_body_def split_beta)

text \<open>The key press section, case by case.\<close>

lemma key_press_ignored: "k = CHR ''x'' \<or> mode s = ERROR_MODE \<Longrightarrow> key_press k s = s"
  by (auto simp: key_press_def)

lemma key_press_star:
  "mode s \<noteq> ERROR_MODE \<Longrightarrow> key_press (CHR ''*'') s =
     s\<lparr>mode := SET_MODE, entry_mode := HOUR, update_LCD := True, index := 0,
       current_entry := (CHR ''_'', CHR ''_'')\<rparr>"
  by (simp add: key_press_def reset_entries_def)

lemma key_press_D:
  "mode s \<noteq> ERROR_MODE \<Longrightarrow> key_press (CHR ''D'') s =
     s\<lparr>mode := NORMAL_MODE, entry_mode := HOUR, current_entry := (CHR ''_'', CHR ''_'')\<rparr>"
  by (simp add: key_press_def reset_entries_def)

lemma key_press_store:
  "mode s = SET_MODE \<Longrightarrow> k \<noteq> CHR ''x'' \<Longrightarrow> k \<noteq> CHR ''*'' \<Longrightarrow> k \<noteq> CHR ''D'' \<Longrightarrow> k \<noteq> CHR ''#'' \<Longrightarrow>
   key_press k s =
     s\<lparr>current_entry := store_entry (index s) k (current_entry s),
       index := (if index s = 0 then 1 else 0), update_LCD := True\<rparr>"
  by (simp add: key_press_def mode_defs)

lemma key_press_enter:
  "mode s = SET_MODE \<Longrightarrow> key_press (CHR ''#'') s =
     (enter_field s)\<lparr>update_LCD := True, current_entry := (CHR ''_'', CHR ''_'')\<rparr>"
  by (simp add: key_press_def reset_entries_def mode_defs)

lemma key_press_normal:
  "mode s = NORMAL_MODE \<Longrightarrow> k \<noteq> CHR ''*'' \<Longrightarrow> k \<noteq> CHR ''D'' \<Longrightarrow> key_press k s = s"
  by (simp add: key_press_def mode_defs)

lemma keypad_entry_chars:
  "k \<in> keypad_chars \<Longrightarrow> k \<noteq> CHR ''*'' \<Longrightarrow> k \<noteq> CHR ''D'' \<Longrightarrow> k \<noteq> CHR ''#'' \<Longrightarrow> k \<in> entry_chars"
  by (auto simp: keypad_chars_def key_map_def entry_chars_def)

lemma entry_chars_code: "c \<in> entry_chars \<Longrightarrow> (48::int) \<le> of_char c"
  by (auto simp: entry_chars_def)

lemma entry_value_nonneg:
  "fst ce \<in> entry_chars \<Longrightarrow> snd ce \<in> entry_chars \<Longrightarrow> 0 \<le> entry_value ce"
  using entry_chars_code [of "fst ce"] entry_chars_code [of "snd ce"]
  by (simp add: entry_value_def)

lemma blank_entry_char: "CHR ''_'' \<in> entry_chars"
  by (simp add: entry_chars_def)

lemma loop_inv_mid: "loop_inv s \<Longrightarrow> mid_inv s"
  by (simp add: loop_inv_def mid_inv_def mode_defs)

lemma enter_field_mid:
  assumes "loop_inv s" "mode s = SET_MODE"
  shows "mid_inv ((enter_field s)\<lparr>update_LCD := True, current_entry := (CHR ''_'', CHR ''_'')\<rparr>)"
proof -
  from assms(1) have ev: "0 \<le> entry_value (current_entry s)"
    by (simp add: loop_inv_def entry_value_nonneg)
  from assms(1) have em: "entry_mode s = HOUR \<or> entry_mode s = MIN' \<or> entry_mode s = AM_PM"
    by (auto simp: loop_inv_def mode_defs)
  then show ?thesis
  proof (elim disjE)
    assume "entry_mode s = HOUR"
    with assms ev show ?thesis
      by (simp add: enter_field_def loop_inv_def mid_inv_def mode_defs Timer_reset_def blank_entry_char Let_def)
  next
    assume "entry_mode s = MIN'"
    with assms ev show ?thesis
      by (simp add: enter_field_def loop_inv_def mid_inv_def mode_defs Timer_reset_def blank_entry_char Let_def)
  next
    assume "entry_mode s = AM_PM"
    with assms ev show ?thesis
      by (simp add: enter_field_def loop_inv_def mid_inv_def mode_defs Timer_reset_def blank_entry_char Let_def)
  qed
qed

lemma store_entry_chars:
  "fst ce \<in> entry_chars \<Longrightarrow> snd ce \<in> entry_chars \<Longrightarrow> k \<in> entry_chars \<Longrightarrow>
   fst (store_entry i k ce) \<in> entry_chars \<and> snd (store_entry i k ce) \<in> entry_chars"
  by (simp add: store_entry_def)

lemma key_press_cases:
  assumes "NORMAL_MODE \<le> mode s" "mode s \<le> ERROR_MODE"
  obtains (ign) "k = CHR ''x'' \<or> mode s = ERROR_MODE"
    | (star) "mode s \<noteq> ERROR_MODE" "k = CHR ''*''"
    | (D) "mode s \<noteq> ERROR_MODE" "k = CHR ''D''"
    | (enter) "mode s = SET_MODE" "k = CHR ''#''"
    | (store) "mode s = SET_MODE" "k \<noteq> CHR ''x''" "k \<noteq> CHR ''*''" "k \<noteq> CHR ''D''" "k \<noteq> CHR ''#''"
    | (normal) "mode s = NORMAL_MODE" "k \<noteq> CHR ''*''" "k \<noteq> CHR ''D''"
proof -
  from assms have "mode s = NORMAL_MODE \<or> mode s = SET_MODE \<or> mode s = ERROR_MODE"
    by (auto simp: mode_defs)
  then show ?thesis
    using ign star D enter store normal by blast
qed

lemma key_press_mid:
  assumes inv: "loop_inv s" and k: "k \<in> insert (CHR ''x'') keypad_chars"
  shows "mid_inv (key_press k s)"
proof -
  from inv have m: "NORMAL_MODE \<le> mode s" "mode s \<le> ERROR_MODE"
    by (simp_all add: loop_inv_def)
  from m show ?thesis
  proof (cases rule: key_press_cases [where k = k])
    case ign
    then show ?thesis using inv by (simp add: key_press_ignored loop_inv_mid)
  next
    case star
    then show ?thesis using inv
      by (simp add: key_press_star loop_inv_def mid_inv_def mode_defs blank_entry_char)
  next
    case D
    then show ?thesis using inv
      by (simp add: key_press_D loop_inv_def mid_inv_def mode_defs blank_entry_char)
  next
    case enter
    then show ?thesis using enter_field_mid [OF inv] by (simp add: key_press_enter)
  next
    case store
    with k have "k \<in> entry_chars" by (simp add: keypad_entry_chars)
    with inv have "fst (store_entry (index s) k (current_entry s)) \<in> entry_chars
        \<and> snd (store_entry (index s) k (current_entry s)) \<in> entry_chars"
      by (simp add: store_entry_chars loop_inv_def)
    with store inv show ?thesis
      by (simp add: key_press_store loop_inv_def mid_inv_def mode_defs)
  next
    case normal
    then show ?thesis using inv by (simp add: key_press_normal loop_inv_mid)
  qed
qed

lemma time_update_mid:
  "mid_inv s \<Longrightarrow> mid_inv (time_update s) \<and> entry_mode (time_update s) \<noteq> ENTER"
  by (simp add: time_update_def mid_inv_def reset_entries_def mode_defs blank_entry_char valid_tm_def)

lemma screen_update_inv:
  "mid_inv s \<Longrightarrow> entry_mode s \<noteq> ENTER \<Longrightarrow> loop_inv (screen_update inp s)"
  by (simp add: screen_update_def mid_inv_def loop_inv_def mode_defs Timer_reset_def Let_def blank_entry_char)

lemma main_iter_inv:
  assumes "loop_inv s" "k \<in> insert (CHR ''x'') keypad_chars"
  shows "loop_inv (main_iter k inp s)"
proof -
  from time_update_mid [OF key_press_mid [OF assms]]
  have "mid_inv (time_update (key_press k s))" "entry_mode (time_update (key_press k s)) \<noteq> ENTER"
    by blast+
  then show ?thesis
    unfolding main_iter_def by (rule screen_update_inv)
qed

lemma loop_body_inv:
  assumes "loop_inv s"
  shows "loop_inv (loop_body inp s)"
proof -
  from scan_phase_frame [of inp s] have "main_vars (snd (scan_phase inp s)) = main_vars s" ..
  then have "loop_inv (snd (scan_phase inp s)) = loop_inv s"
    by (rule loop_inv_main_vars)
  with assms have "loop_inv (snd (scan_phase inp s))" by blast
  then show ?thesis
    unfolding loop_body_scan using scan_phase_key by (rule main_iter_inv)
qed

lemma init_inv: "loop_inv init_state"
  by (simp add: loop_inv_def init_state_def mode_defs blank_entry_char)

lemma run_inv: "loop_inv s \<Longrightarrow> loop_inv (run inps s)"
  by (induction inps arbitrary: s) (simp_all add: loop_body_inv)

lemma main_iter_error:
  assumes "mode s = ERROR_MODE" "entry_mode s \<noteq> ENTER" "\<not> update_LCD s"
  shows "main_iter k inp s =
     (if 2000 \<le> Timer_read_ms (now s) (timer s)
      then s\<lparr>timer := Timer_reset (now s) (timer s), mode := SET_MODE, index := 0, update_LCD := True\<rparr>
      else s)"
  using assms
  by (simp add: main_iter_def key_press_ignored time_update_def screen_update_def mode_defs)

lemma loop_inv_error:
  assumes "loop_inv s" "mode s = ERROR_MODE"
  shows "entry_mode s \<noteq> ENTER" "\<not> update_LCD s" "current_entry s = (CHR ''_'', CHR ''_'')"
  using assms by (simp_all add: loop_inv_def mode_defs)

lemma enter_field_frame:
  "now (enter_field s) = now s \<and> set_time_calls (enter_field s) = set_time_calls s
   \<and> index (enter_field s) = index s \<and> current_entry (enter_field s) = current_entry s
   \<and> update_LCD (enter_field s) = update_LCD s \<and> lcd (enter_field s) = lcd s"
  by (simp add: enter_field_def Let_def)

lemma enter_field_rejected:
  "rejected s \<Longrightarrow>
     mode (enter_field s) = ERROR_MODE \<and> entry_mode (enter_field s) = entry_mode s
     \<and> timer (enter_field s) = Timer_reset (now s) (timer s)"
  by (auto simp: enter_field_def rejected_def Let_def mode_defs)

lemma enter_field_accepted:
  "\<not> rejected s \<Longrightarrow>
     mode (enter_field s) = mode s \<and> timer (enter_field s) = timer s
     \<and> entry_mode (enter_field s) =
         (if entry_mode s = HOUR \<or> entry_mode s = MIN' \<or> entry_mode s = AM_PM
          then entry_mode s + 1 else entry_mode s)"
  by (auto simp: enter_field_def rejected_def Let_def mode_defs)

lemma enter_field_hr_min:
  "hr (enter_field s) =
     (if entry_mode s = HOUR then entry_value (current_entry s)
      else if entry_mode s = AM_PM \<and> \<not> rejected s \<and> fst (current_entry s) = CHR ''P'' \<and> hr s \<noteq> 12
      then hr s + 12 else hr s)
   \<and> min' (enter_field s) =
     (if entry_mode s = MIN' then entry_value (current_entry s) else min' s)"
  by (auto simp: enter_field_def rejected_def Let_def mode_defs)

lemma key_press_frame:
  "set_time_calls (key_press k s) = set_time_calls s \<and> now (key_press k s) = now s"
  by (simp add: key_press_def reset_entries_def enter_field_frame)

lemma screen_update_frame:
  "set_time_calls (screen_update inp s) = set_time_calls s
   \<and> entry_mode (screen_update inp s) = entry_mode s
   \<and> hr (screen_update inp s) = hr s \<and> min' (screen_update inp s) = min' s
   \<and> current_entry (screen_update inp s) = current_entry s
   \<and> now (screen_update inp s) = now s"
  by (simp add: screen_update_def Let_def)

lemma rejected_entry_mode: "rejected s \<Longrightarrow> entry_mode s \<noteq> ENTER"
  by (auto simp: rejected_def mode_defs)

lemma main_iter_commits:
  "set_time_calls (main_iter k inp s) =
     (if entry_mode (key_press k s) = ENTER
      then set_time_calls s @ [\<lparr>tm_hour = hr (key_press k s), tm_min = min' (key_press k s), tm_sec = 0\<rparr>]
      else set_time_calls s)"
  by (simp add: main_iter_def screen_update_frame time_update_def reset_entries_def key_press_frame)

lemma main_iter_enter_rejected:
  assumes "mode s = SET_MODE" "rejected s"
  shows "mode (main_iter (CHR ''#'') inp s) = ERROR_MODE
       \<and> entry_mode (main_iter (CHR ''#'') inp s) = entry_mode s
       \<and> set_time_calls (main_iter (CHR ''#'') inp s) = set_time_calls s
       \<and> \<not> update_LCD (main_iter (CHR ''#'') inp s)
       \<and> current_entry (main_iter (CHR ''#'') inp s) = (CHR ''_'', CHR ''_'')
       \<and> lcd (main_iter (CHR ''#'') inp s) = ''---- ERROR! ----''
       \<and> timer (main_iter (CHR ''#'') inp s) = Timer_reset (now s) (timer s)
       \<and> now (main_iter (CHR ''#'') inp s) = now s"
  using assms enter_field_rejected [OF assms(2)] rejected_entry_mode [OF assms(2)]
  by (simp add: main_iter_def key_press_enter time_update_def screen_update_def enter_field_frame mode_defs)

lemma main_iter_enter_accepted:
  assumes "mode s = SET_MODE" "\<not> rejected s" "entry_mode s = HOUR \<or> entry_mode s = MIN'"
  shows "mode (main_iter (CHR ''#'') inp s) = SET_MODE
       \<and> entry_mode (main_iter (CHR ''#'') inp s) = entry_mode s + 1
       \<and> set_time_calls (main_iter (CHR ''#'') inp s) = set_time_calls s
       \<and> current_entry (main_iter (CHR ''#'') inp s) = (CHR ''_'', CHR ''_'')"
  using assms enter_field_accepted [OF assms(2)]
  by (auto simp: main_iter_def key_press_enter time_update_def screen_update_def enter_field_frame mode_defs)

lemma main_iter_enter_am_pm:
  assumes "mode s = SET_MODE" "\<not> rejected s" "entry_mode s = AM_PM"
  shows "mode (main_iter (CHR ''#'') inp s) = NORMAL_MODE
       \<and> entry_mode (main_iter (CHR ''#'') inp s) = HOUR
       \<and> set_time_calls (main_iter (CHR ''#'') inp s) =
           set_time_calls s @
           [\<lparr>tm_hour = (if fst (current_entry s) = CHR ''P'' \<and> hr s \<noteq> 12 then hr s + 12 else hr s),
             tm_min = min' s, tm_sec = 0\<rparr>]
       \<and> current_entry (main_iter (CHR ''#'') inp s) = (CHR ''_'', CHR ''_'')"
proof -
  let ?e = "(enter_field s)\<lparr>update_LCD := True, current_entry := (CHR ''_'', CHR ''_'')\<rparr>"
  from assms enter_field_accepted [OF assms(2)] have em: "entry_mode ?e = ENTER"
    by (simp add: mode_defs)
  from assms enter_field_hr_min [of s] have h: "hr ?e = (if fst (current_entry s) = CHR ''P'' \<and> hr s \<noteq> 12 then hr s + 12 else hr s)" "min' ?e = min' s"
    by (simp_all add: mode_defs)
  have tu: "time_update ?e = ?e\<lparr>set_time_calls := set_time_calls s @ [\<lparr>tm_hour = hr ?e, tm_min = min' ?e, tm_sec = 0\<rparr>],
            mode := NORMAL_MODE, entry_mode := HOUR\<rparr>"
    using em by (simp add: time_update_def reset_entries_def enter_field_frame)
  show ?thesis
    unfolding main_iter_def key_press_enter [OF assms(1)] tu h
    by (simp add: screen_update_def Let_def mode_defs)
qed

lemma run_append: "run (xs @ ys) s = run ys (run xs s)"
  by (induction xs arbitrary: s) simp_all

lemma key_press_mode_error:
  assumes "loop_inv s" "mode s \<noteq> ERROR_MODE" "mode (key_press k s) = ERROR_MODE"
  shows "k = CHR ''#'' \<and> mode s = SET_MODE \<and> rejected s"
proof -
  from assms(1) have m: "NORMAL_MODE \<le> mode s" "mode s \<le> ERROR_MODE"
    by (simp_all add: loop_inv_def)
  from m show ?thesis
  proof (cases rule: key_press_cases [where k = k])
    case ign
    with assms show ?thesis by (simp add: key_press_ignored)
  next
    case star
    with assms show ?thesis by (simp add: key_press_star mode_defs)
  next
    case D
    with assms show ?thesis by (simp add: key_press_D mode_defs)
  next
    case enter
    show ?thesis
    proof (cases "rejected s")
      case True
      with enter show ?thesis by simp
    next
      case False
      from enter_field_accepted [OF False] enter assms(3) show ?thesis
        by (simp add: key_press_enter mode_defs)
    qed
  next
    case store
    with assms show ?thesis by (simp add: key_press_store mode_defs)
  next
    case normal
    with assms show ?thesis by (simp add: key_press_normal)
  qed
qed

lemma main_iter_mode_error:
  "mode (main_iter k inp s) = ERROR_MODE \<Longrightarrow> mode (key_press k s) = ERROR_MODE"
  by (simp add: main_iter_def screen_update_def time_update_def reset_entries_def mode_defs Let_def
      split: if_splits)

section \<open>The Error mode\<close>

text \<open>
  Claim C6. At every state the loop reaches in the Error mode, whatever key the scanner
  returns, the iteration does what it does with no key at all (\<open>x\<close>): the key press
  section is skipped, also for \<open>D\<close> and \<open>*\<close>. The two slots of the pending entry, the
  candidate hour and minute, the entry field and the calls of \<^verbatim>\<open>set_time\<close> are the
  same after the iteration; the cursor and the mode change only in the iteration in which
  the timer, read in the screen update section, has reached 2000 ms, and the mode then
  becomes Set. So nothing but the expiry of the timer takes the mode out of Error.
\<close>

theorem error_mode_ignores_keys:
  assumes s: "s = run inps init_state" and e: "mode s = ERROR_MODE"
    and s1: "s1 = snd (scan_phase inp s)"
  shows "main_iter k inp s1 = main_iter (CHR ''x'') inp s1
       \<and> current_entry (main_iter k inp s1) = current_entry s
       \<and> hr (main_iter k inp s1) = hr s
       \<and> min' (main_iter k inp s1) = min' s
       \<and> entry_mode (main_iter k inp s1) = entry_mode s
       \<and> set_time_calls (main_iter k inp s1) = set_time_calls s
       \<and> (index (main_iter k inp s1) \<noteq> index s \<or> mode (main_iter k inp s1) \<noteq> ERROR_MODE
            \<longrightarrow> 2000 \<le> Timer_read_ms (now s1) (timer s1) \<and> mode (main_iter k inp s1) = SET_MODE)"
proof -
  have inv: "loop_inv s" unfolding s by (rule run_inv [OF init_inv])
  from scan_phase_frame [of inp s] have mv: "main_vars s1 = main_vars s" unfolding s1 ..
  from loop_inv_main_vars [OF mv] inv have inv1: "loop_inv s1" by simp
  from mv e have e1: "mode s1 = ERROR_MODE" by (simp add: main_vars_def)
  note it = main_iter_error [OF e1 loop_inv_error(1,2) [OF inv1 e1]]
  from mv e show ?thesis
    by (simp add: it main_vars_def mode_defs)
qed

text \<open>
  The hour 13 was rejected and three idle iterations have passed: in the next iteration
  the key \<open>D\<close> does what no key does, and the mode leaves Error because the timer has
  reached 2000 ms.
\<close>

theorem error_mode_ignores_keys_witness:
  "mode after_13_enter_late = ERROR_MODE
   \<and> main_iter (CHR ''D'') idle (snd (scan_phase idle after_13_enter_late))
       = main_iter (CHR ''x'') idle (snd (scan_phase idle after_13_enter_late))
   \<and> entry_mode (main_iter (CHR ''D'') idle (snd (scan_phase idle after_13_enter_late))) = HOUR
   \<and> mode (main_iter (CHR ''D'') idle (snd (scan_phase idle after_13_enter_late))) = SET_MODE
   \<and> 2000 \<le> Timer_read_ms (now (snd (scan_phase idle after_13_enter_late)))
        (timer (snd (scan_phase idle after_13_enter_late)))"
proof -
  let ?inps = "held [(3, 0), (3, 0), (0, 0), (0, 2), (3, 2)] @ [idle, idle, idle]"
  have s: "after_13_enter_late = run ?inps init_state"
    unfolding after_13_enter_late_def after_13_enter_def run_append ..
  have e: "mode after_13_enter_late = ERROR_MODE"
    by code_simp
  have m: "mode (main_iter (CHR ''D'') idle (snd (scan_phase idle after_13_enter_late))) \<noteq> ERROR_MODE"
    by code_simp
  have h: "entry_mode after_13_enter_late = HOUR"
    by code_simp
  note t = error_mode_ignores_keys [where inp = idle and k = "CHR ''D''", OF s e refl]
  from t m h e show ?thesis
    by metis
qed

text \<open>
  Claim C7. The timer reads 0 at the end of the iteration that enters the Error mode (a
  rejected entry is the only way in). From a state in the Error mode, an iteration leaves
  the mode at Error, and the timer untouched, while the timer read in the screen update
  section is below 2000 ms; the first iteration that reads 2000 ms or more sets the mode to
  Set, and then the cursor is 0, both slots hold the blank \<open>_\<close> and the entry field is the
  one that failed.
\<close>

theorem error_recovery:
  assumes s: "s = run inps init_state" and s1: "s1 = snd (scan_phase inp s)"
    and s': "s' = loop_body inp s"
  shows "(mode s \<noteq> ERROR_MODE \<and> mode s' = ERROR_MODE \<longrightarrow>
            Timer_read_ms (now s') (timer s') = 0)
       \<and> (mode s = ERROR_MODE \<longrightarrow>
            mode s' = (if 2000 \<le> Timer_read_ms (now s1) (timer s1) then SET_MODE else ERROR_MODE)
          \<and> (mode s' = ERROR_MODE \<longrightarrow> timer s' = timer s)
          \<and> (mode s' = SET_MODE \<longrightarrow>
                index s' = 0 \<and> current_entry s' = (CHR ''_'', CHR ''_'')
              \<and> entry_mode s' = entry_mode s))"
proof -
  have inv: "loop_inv s" unfolding s by (rule run_inv [OF init_inv])
  from scan_phase_frame [of inp s] have mv: "main_vars s1 = main_vars s" unfolding s1 ..
  from loop_inv_main_vars [OF mv] inv have inv1: "loop_inv s1" by simp
  have lb: "s' = main_iter (fst (scan_phase inp s)) inp s1"
    unfolding s' s1 by (rule loop_body_scan)
  have enter: "Timer_read_ms (now s') (timer s') = 0"
    if ne: "mode s \<noteq> ERROR_MODE" and e': "mode s' = ERROR_MODE"
  proof -
    let ?k = "fst (scan_phase inp s)"
    from mv ne have ne1: "mode s1 \<noteq> ERROR_MODE" by (simp add: main_vars_def)
    from e' lb have "mode (key_press ?k s1) = ERROR_MODE"
      by (simp add: main_iter_mode_error)
    from key_press_mode_error [OF inv1 ne1 this]
    have k: "?k = CHR ''#''" and m: "mode s1 = SET_MODE" and r: "rejected s1" by simp_all
    from main_iter_enter_rejected [OF m r, of inp] lb k
    have "timer s' = Timer_reset (now s1) (timer s1)" "now s' = now s1" by simp_all
    moreover from inv1 have "running (timer s1)" by (simp add: loop_inv_def)
    ultimately show ?thesis by (simp add: Timer_read_ms_def Timer_reset_def)
  qed
  have recover: "mode s' = (if 2000 \<le> Timer_read_ms (now s1) (timer s1) then SET_MODE else ERROR_MODE)
          \<and> (mode s' = ERROR_MODE \<longrightarrow> timer s' = timer s)
          \<and> (mode s' = SET_MODE \<longrightarrow>
                index s' = 0 \<and> current_entry s' = (CHR ''_'', CHR ''_'')
              \<and> entry_mode s' = entry_mode s)"
    if e: "mode s = ERROR_MODE"
  proof -
    from mv e have e1: "mode s1 = ERROR_MODE" by (simp add: main_vars_def)
    note it = main_iter_error [OF e1 loop_inv_error(1,2) [OF inv1 e1]]
    from loop_inv_error(3) [OF inv e] mv e show ?thesis
      unfolding lb by (simp add: it main_vars_def mode_defs)
  qed
  from enter recover show ?thesis by blast
qed

text \<open>
  The three cases on the run \<open>* 1 3 #\<close>: the \<open>#\<close> enters the Error mode with the timer
  at 0; an idle iteration later the mode is still Error; after three more the mode is Set,
  the cursor 0, the slots blank, the field still Hour.
\<close>

theorem error_recovery_witness:
  "mode after_13 \<noteq> ERROR_MODE
   \<and> mode (loop_body (press 3 2) after_13) = ERROR_MODE
   \<and> Timer_read_ms (now (loop_body (press 3 2) after_13)) (timer (loop_body (press 3 2) after_13)) = 0
   \<and> mode after_13_enter = ERROR_MODE
   \<and> mode (loop_body idle after_13_enter) = ERROR_MODE
   \<and> timer (loop_body idle after_13_enter) = timer after_13_enter
   \<and> mode after_13_enter_late = ERROR_MODE
   \<and> mode (loop_body idle after_13_enter_late) = SET_MODE
   \<and> index (loop_body idle after_13_enter_late) = 0
   \<and> current_entry (loop_body idle after_13_enter_late) = (CHR ''_'', CHR ''_'')
   \<and> entry_mode (loop_body idle after_13_enter_late) = entry_mode after_13_enter_late"
proof -
  have sa: "after_13 = run (held [(3, 0), (3, 0), (0, 0), (0, 2)]) init_state"
    by (rule after_13_def)
  have sb: "after_13_enter = run (held [(3, 0), (3, 0), (0, 0), (0, 2), (3, 2)]) init_state"
    by (rule after_13_enter_def)
  have sc: "after_13_enter_late
      = run (held [(3, 0), (3, 0), (0, 0), (0, 2), (3, 2)] @ [idle, idle, idle]) init_state"
    unfolding after_13_enter_late_def after_13_enter_def run_append ..
  have a1: "mode after_13 \<noteq> ERROR_MODE" by code_simp
  have a2: "mode (loop_body (press 3 2) after_13) = ERROR_MODE" by code_simp
  have b1: "mode after_13_enter = ERROR_MODE" by code_simp
  have b2: "mode (loop_body idle after_13_enter) = ERROR_MODE" by code_simp
  have c1: "mode after_13_enter_late = ERROR_MODE" by code_simp
  have c2: "mode (loop_body idle after_13_enter_late) = SET_MODE" by code_simp
  from error_recovery [OF sa refl refl, where inp = "press 3 2"] a1 a2
  have a: "Timer_read_ms (now (loop_body (press 3 2) after_13)) (timer (loop_body (press 3 2) after_13)) = 0"
    by blast
  from error_recovery [OF sb refl refl, where inp = idle] b1 b2
  have b: "timer (loop_body idle after_13_enter) = timer after_13_enter"
    by blast
  from error_recovery [OF sc refl refl, where inp = idle] c1 c2
  have c: "index (loop_body idle after_13_enter_late) = 0
     \<and> current_entry (loop_body idle after_13_enter_late) = (CHR ''_'', CHR ''_'')
     \<and> entry_mode (loop_body idle after_13_enter_late) = entry_mode after_13_enter_late"
    by blast
  from a1 a2 a b1 b2 b c1 c2 c show ?thesis
    by blast
qed

section \<open>Rejected and accepted entries\<close>

text \<open>
  Claim C8. In the Set mode, a \<open>#\<close> on an entry that fails the check of its field sets
  the mode to Error, leaves the entry field where it is and calls \<^verbatim>\<open>set_time\<close> neither
  in that iteration nor in the next one, whatever its key and its time (the field is still
  the same when the error clears). In any iteration, \<^verbatim>\<open>set_time\<close> is called only if the
  entry field is \<^verbatim>\<open>ENTER\<close> when the time update section is reached.
\<close>

theorem rejected_entry_commits_nothing:
  assumes "mode s = SET_MODE" "rejected s"
  shows "mode (main_iter (CHR ''#'') inp s) = ERROR_MODE
       \<and> entry_mode (main_iter (CHR ''#'') inp s) = entry_mode s
       \<and> set_time_calls (main_iter (CHR ''#'') inp s) = set_time_calls s
       \<and> entry_mode (main_iter k2 inp2 (main_iter (CHR ''#'') inp s)) = entry_mode s
       \<and> set_time_calls (main_iter k2 inp2 (main_iter (CHR ''#'') inp s)) = set_time_calls s
       \<and> (set_time_calls (main_iter k3 inp3 s3) \<noteq> set_time_calls s3 \<longrightarrow>
            entry_mode (key_press k3 s3) = ENTER)"
proof -
  let ?e = "main_iter (CHR ''#'') inp s"
  note r = main_iter_enter_rejected [OF assms, of inp]
  from r rejected_entry_mode [OF assms(2)]
  have e: "mode ?e = ERROR_MODE" "entry_mode ?e \<noteq> ENTER" "\<not> update_LCD ?e"
    by simp_all
  note it = main_iter_error [OF e]
  from r have "entry_mode (main_iter k2 inp2 ?e) = entry_mode s
      \<and> set_time_calls (main_iter k2 inp2 ?e) = set_time_calls s"
    by (simp add: it)
  with r show ?thesis
    by (simp add: main_iter_commits [of k3 inp3 s3])
qed

text \<open>
  After \<open>* 1 3\<close> the \<open>#\<close> is rejected and nothing is committed; after
  \<open>* 0 1 # 3 0 # P M\<close> the \<open>#\<close> commits, with the entry field at \<^verbatim>\<open>ENTER\<close>.
\<close>

theorem rejected_entry_commits_nothing_witness:
  "mode after_13 = SET_MODE \<and> rejected after_13
   \<and> mode (main_iter (CHR ''#'') idle after_13) = ERROR_MODE
   \<and> entry_mode (main_iter (CHR ''#'') idle after_13) = entry_mode after_13
   \<and> set_time_calls (main_iter (CHR ''#'') idle after_13) = set_time_calls after_13
   \<and> set_time_calls (main_iter (CHR ''#'') idle after_0130_PM) \<noteq> set_time_calls after_0130_PM
   \<and> entry_mode (key_press (CHR ''#'') after_0130_PM) = ENTER"
proof -
  have m: "mode after_13 = SET_MODE" by code_simp
  have r: "rejected after_13" by code_simp
  have c: "set_time_calls (main_iter (CHR ''#'') idle after_0130_PM) \<noteq> set_time_calls after_0130_PM"
    by code_simp
  note t = rejected_entry_commits_nothing [OF m r, where inp = idle and ?k3.0 = "CHR ''#''"
      and ?inp3.0 = idle and ?s3.0 = after_0130_PM]
  from t m r c show ?thesis
    by blast
qed

text \<open>
  Claim C9. In the Set mode on the Minute field, \<open>#\<close> stores the value
  \<^verbatim>\<open>(slot0 - '0')*10 + (slot1 - '0')\<close> in the minute variable and enters the Error mode
  exactly when that value exceeds 59: nothing else is checked. The slots \<open>2\<close>, \<open>A\<close>
  decode to 37, so they are accepted and the entry field advances to AmPm.
\<close>

theorem minute_check_is_upper_bound_only:
  assumes "mode s = SET_MODE" "entry_mode s = MIN'"
  shows "min' (main_iter (CHR ''#'') inp s) = entry_value (current_entry s)
       \<and> (mode (main_iter (CHR ''#'') inp s) = ERROR_MODE \<longleftrightarrow> 59 < entry_value (current_entry s))
       \<and> (entry_value (current_entry s) \<le> 59 \<longrightarrow>
            mode (main_iter (CHR ''#'') inp s) = SET_MODE
          \<and> entry_mode (main_iter (CHR ''#'') inp s) = AM_PM)
       \<and> entry_value (CHR ''2'', CHR ''A'') = 37"
proof -
  from assms(2) have rj: "rejected s \<longleftrightarrow> 59 < entry_value (current_entry s)"
    by (simp add: rejected_def mode_defs)
  have mn: "min' (main_iter (CHR ''#'') inp s) = entry_value (current_entry s)"
    using assms enter_field_hr_min [of s]
    by (simp add: main_iter_def key_press_enter time_update_def reset_entries_def screen_update_frame)
  have ev: "entry_value (CHR ''2'', CHR ''A'') = 37"
    by (simp add: entry_value_def)
  show ?thesis
  proof (cases "rejected s")
    case True
    from main_iter_enter_rejected [OF assms(1) True, of inp] True rj mn ev show ?thesis
      by simp
  next
    case False
    from main_iter_enter_accepted [OF assms(1) False, of inp] assms(2) False rj mn ev show ?thesis
      by (simp add: mode_defs)
  qed
qed

text \<open>After the keys \<open>* 0 1 # 2 A\<close>, the \<open>#\<close> sets the minute to 37 and the field to AmPm.\<close>

theorem minute_check_is_upper_bound_only_witness:
  "mode after_01_2A = SET_MODE \<and> entry_mode after_01_2A = MIN'
   \<and> current_entry after_01_2A = (CHR ''2'', CHR ''A'')
   \<and> min' (main_iter (CHR ''#'') idle after_01_2A) = 37
   \<and> mode (main_iter (CHR ''#'') idle after_01_2A) = SET_MODE
   \<and> entry_mode (main_iter (CHR ''#'') idle after_01_2A) = AM_PM"
proof -
  have m: "mode after_01_2A = SET_MODE" by code_simp
  have e: "entry_mode after_01_2A = MIN'" by code_simp
  have c: "current_entry after_01_2A = (CHR ''2'', CHR ''A'')" by code_simp
  note t = minute_check_is_upper_bound_only [OF m e, where inp = idle]
  from t c have v: "entry_value (current_entry after_01_2A) = 37" by simp
  from t v m e c show ?thesis by simp
qed

subsection \<open>Blank slots\<close>



lemma main_iter_enter_value:
  assumes "mode s = SET_MODE"
  shows "entry_mode s = HOUR \<Longrightarrow> hr (main_iter (CHR ''#'') inp s) = entry_value (current_entry s)"
    and "entry_mode s = MIN' \<Longrightarrow> min' (main_iter (CHR ''#'') inp s) = entry_value (current_entry s)"
  using assms enter_field_hr_min [of s]
  by (simp_all add: main_iter_def key_press_enter time_update_def reset_entries_def
      screen_update_frame mode_defs)





subsection \<open>The candidate time\<close>

text \<open>
  Claim C3, as the code has it. The hour and the minute variable are assigned the parsed
  value before it is checked, so after a \<open>#\<close> on the Hour (Minute) field the variable
  holds the parsed value, rejected or not. What holds at every state the loop reaches:
  while the entry field is Minute or AmPm the hour variable is in 1..12; while it is AmPm
  the minute variable is in 0..59; and every time given to \<^verbatim>\<open>set_time\<close> has its hour in
  1..23, its minute in 0..59 and its second 0. A rejected value stays in its variable only
  while its own field is (again) to be entered.
\<close>

theorem candidate_time_validated:
  assumes s: "s = run inps init_state"
  shows "(entry_mode s = MIN' \<or> entry_mode s = AM_PM \<longrightarrow> 1 \<le> hr s \<and> hr s \<le> 12)
       \<and> (entry_mode s = AM_PM \<longrightarrow> 0 \<le> min' s \<and> min' s \<le> 59)
       \<and> list_all valid_tm (set_time_calls s)
       \<and> (mode s2 = SET_MODE \<and> entry_mode s2 = HOUR \<longrightarrow>
            hr (main_iter (CHR ''#'') inp s2) = entry_value (current_entry s2))
       \<and> (mode s3 = SET_MODE \<and> entry_mode s3 = MIN' \<longrightarrow>
            min' (main_iter (CHR ''#'') inp s3) = entry_value (current_entry s3))"
proof -
  have inv: "loop_inv s" unfolding s by (rule run_inv [OF init_inv])
  then have "(entry_mode s = MIN' \<or> entry_mode s = AM_PM \<longrightarrow> 1 \<le> hr s \<and> hr s \<le> 12)
       \<and> (entry_mode s = AM_PM \<longrightarrow> 0 \<le> min' s \<and> min' s \<le> 59)
       \<and> list_all valid_tm (set_time_calls s)"
    by (auto simp: loop_inv_def mode_defs)
  with main_iter_enter_value [of s2 inp] main_iter_enter_value [of s3 inp] show ?thesis
    by blast
qed

text \<open>
  After \<open>* 0 1 # 3 0 #\<close> the field is AmPm, the hour 1 and the minute 30; after \<open>* 1 3\<close>
  and after \<open>* 0 1 # 2 A\<close> a \<open>#\<close> stores the parsed value.
\<close>

theorem candidate_time_validated_witness:
  "entry_mode after_0130_enter = AM_PM
   \<and> 1 \<le> hr after_0130_enter \<and> hr after_0130_enter \<le> 12
   \<and> 0 \<le> min' after_0130_enter \<and> min' after_0130_enter \<le> 59
   \<and> mode after_13 = SET_MODE \<and> entry_mode after_13 = HOUR
   \<and> hr (main_iter (CHR ''#'') idle after_13) = entry_value (current_entry after_13)
   \<and> mode after_01_2A = SET_MODE \<and> entry_mode after_01_2A = MIN'
   \<and> min' (main_iter (CHR ''#'') idle after_01_2A) = entry_value (current_entry after_01_2A)"
proof -
  have s: "after_0130_enter =
     run (held [(3, 0), (3, 0), (3, 1), (0, 0), (3, 2), (0, 2), (3, 1), (3, 2)]) init_state"
    by (rule after_0130_enter_def)
  have e: "entry_mode after_0130_enter = AM_PM" by code_simp
  have m2: "mode after_13 = SET_MODE" by code_simp
  have e2: "entry_mode after_13 = HOUR" by code_simp
  have m3: "mode after_01_2A = SET_MODE" by code_simp
  have e3: "entry_mode after_01_2A = MIN'" by code_simp
  note t = candidate_time_validated [OF s, where ?s2.0 = after_13 and ?s3.0 = after_01_2A and inp = idle]
  from t e m2 e2 m3 e3 show ?thesis
    by blast
qed

text \<open>
  Claim C3 as the spec states it (after a \<open>#\<close> whose parsed value fails the check, the
  variable does not hold the rejected value) fails on the keys \<open>* 1 3 #\<close>: the \<open>#\<close>
  finds \<open>1\<close>, \<open>3\<close> in the slots of the Hour field, the mode becomes Error, and the hour
  variable holds 13.
\<close>

theorem rejected_hour_is_stored:
  "mode after_13 = SET_MODE \<and> entry_mode after_13 = HOUR
   \<and> current_entry after_13 = (CHR ''1'', CHR ''3'')
   \<and> fst (scan_phase (press 3 2) after_13) = CHR ''#''
   \<and> after_13_enter = loop_body (press 3 2) after_13
   \<and> mode after_13_enter = ERROR_MODE
   \<and> hr after_13_enter = 13"
  by code_simp

section \<open>Setting and showing the time\<close>

text \<open>
  Claim C5. From any state in the Normal mode, the key events \<open>* 0 1 # 3 0 # P M #\<close>,
  whatever the time and the other inputs of their ten iterations, add exactly one call of
  \<^verbatim>\<open>set_time\<close>, with hour 13, minute 30 and second 0, and leave the mode at Normal and
  the entry field at Hour.
\<close>

theorem set_time_scenario:
  assumes "mode s = NORMAL_MODE"
  shows "set_time_calls
           (run_keys [(CHR ''*'', i1), (CHR ''0'', i2), (CHR ''1'', i3), (CHR ''#'', i4),
                      (CHR ''3'', i5), (CHR ''0'', i6), (CHR ''#'', i7),
                      (CHR ''P'', i8), (CHR ''M'', i9), (CHR ''#'', i10)] s)
           = set_time_calls s @ [\<lparr>tm_hour = 13, tm_min = 30, tm_sec = 0\<rparr>]
       \<and> mode (run_keys [(CHR ''*'', i1), (CHR ''0'', i2), (CHR ''1'', i3), (CHR ''#'', i4),
                      (CHR ''3'', i5), (CHR ''0'', i6), (CHR ''#'', i7),
                      (CHR ''P'', i8), (CHR ''M'', i9), (CHR ''#'', i10)] s) = NORMAL_MODE
       \<and> entry_mode (run_keys [(CHR ''*'', i1), (CHR ''0'', i2), (CHR ''1'', i3), (CHR ''#'', i4),
                      (CHR ''3'', i5), (CHR ''0'', i6), (CHR ''#'', i7),
                      (CHR ''P'', i8), (CHR ''M'', i9), (CHR ''#'', i10)] s) = HOUR"
  using assms
  by (simp add: main_iter_def key_press_def time_update_def screen_update_def enter_field_def
      reset_entries_def store_entry_def entry_value_def mode_defs Let_def)

text \<open>The scenario from the state in which the loop is entered.\<close>

theorem set_time_scenario_witness:
  "mode init_state = NORMAL_MODE
   \<and> set_time_calls (run_keys (typed ''*01#30#PM#'') init_state)
       = [\<lparr>tm_hour = 13, tm_min = 30, tm_sec = 0\<rparr>]
   \<and> mode (run_keys (typed ''*01#30#PM#'') init_state) = NORMAL_MODE
   \<and> entry_mode (run_keys (typed ''*01#30#PM#'') init_state) = HOUR"
proof -
  have m: "mode init_state = NORMAL_MODE"
    by (simp add: init_state_def)
  have c: "set_time_calls init_state = []"
    by (simp add: init_state_def)
  have ty: "typed ''*01#30#PM#'' =
      [(CHR ''*'', idle), (CHR ''0'', idle), (CHR ''1'', idle), (CHR ''#'', idle),
       (CHR ''3'', idle), (CHR ''0'', idle), (CHR ''#'', idle),
       (CHR ''P'', idle), (CHR ''M'', idle), (CHR ''#'', idle)]"
    by (simp add: typed_def)
  from set_time_scenario [OF m, of idle idle idle idle idle idle idle idle idle idle] m
  show ?thesis
    unfolding ty c by simp
qed

text \<open>
  Claim C2 at the input where the code departs from it. The \<open>#\<close> on the AmPm field adds
  12 to the hour when slot 0 is \<open>P\<close> and the hour is not 12, and changes nothing
  otherwise (lemma \<open>main_iter_enter_am_pm\<close>): the keys \<open>* 1 2 # 0 0 # A M #\<close> (12 AM) commit the hour 12, not 0, the same
  time as \<open>* 1 2 # 0 0 # P M #\<close> (12 PM).
\<close>

theorem midnight_committed_as_noon:
  "set_time_calls (run_keys (typed ''*12#00#AM#'') init_state)
     = [\<lparr>tm_hour = 12, tm_min = 0, tm_sec = 0\<rparr>]
   \<and> set_time_calls (run_keys (typed ''*12#00#PM#'') init_state)
     = [\<lparr>tm_hour = 12, tm_min = 0, tm_sec = 0\<rparr>]"
  by code_simp

text \<open>The hour shown is the hour modulo 12, with 12 for 0; the suffix is \<open>PM\<close> above 12.\<close>

lemma display_hour_12h:
  "0 \<le> h \<Longrightarrow> display_hour h = (if h mod 12 = 0 then 12 else h mod 12)"
  by (cases "h = 0") (simp_all add: display_hour_def smod_int_alt_def)

lemma am_pm_PM: "am_pm h = ''PM'' \<longleftrightarrow> 12 < h"
  by (simp add: am_pm_def)

text \<open>
  Claim C4 at the input where the code departs from it. The suffix is \<open>PM\<close> when the hour
  is greater than 12, so the hour 12 is shown with \<open>AM\<close>: in the Normal mode, with 1000 ms
  on the timer and the clock at 12:30:00, the line written is \<open>12:30:00 AM 25 C\<close>.
\<close>

theorem noon_rendered_as_AM:
  "am_pm 12 = ''AM''
   \<and> mode (sleep_for 1000 init_state) = NORMAL_MODE
   \<and> clock_now idle = \<lparr>tm_hour = 12, tm_min = 30, tm_sec = 0\<rparr>
   \<and> lcd (screen_update idle (sleep_for 1000 init_state)) = ''12:30:00 AM 25 C''"
  by code_simp


end
